theory Spec2Isabelle
  imports Complex_Main
begin

section \<open>Architecture state of the network visualiser (src/App.jsx)\<close>

text \<open>
  The application keeps its architecture in React state: an array of layer objects
  \<^verbatim>\<open>{ nodes, activation }\<close> and the index \<^verbatim>\<open>sel\<close> of the layer under inspection.
  Layer widths are JavaScript numbers that only ever hold small integers, so they
  are modelled as \<^typ>\<open>int\<close>; activations are the strings the source stores.
  Array indices are \<^typ>\<open>nat\<close>.
\<close>

subsection \<open>Constants\<close>

definition MAX_NODES :: int where
  "MAX_NODES = 8"

definition MIN_NODES :: int where
  "MIN_NODES = 1"

definition MAX_LAYERS :: nat where
  "MAX_LAYERS = 6"


record layer_spec =
  nodes :: int
  activation :: string

definition defaultLayers :: "layer_spec list" where
  "defaultLayers =
     [\<lparr>nodes = 3, activation = ''Linear''\<rparr>,
      \<lparr>nodes = 5, activation = ''ReLU''\<rparr>,
      \<lparr>nodes = 4, activation = ''Tanh''\<rparr>,
      \<lparr>nodes = 2, activation = ''Softmax''\<rparr>]"

subsection \<open>Parameter accounting: \<^verbatim>\<open>computeParams\<close>\<close>

text \<open>One entry of the \<^verbatim>\<open>breakdown\<close> array, \<^verbatim>\<open>{ layer: i, nin, nout, W, B }\<close>.\<close>

record breakdown_entry =
  layer :: nat
  nin :: int
  nout :: int
  W :: int
  B :: int

text \<open>The object \<^verbatim>\<open>{ totalW, totalB, total, breakdown }\<close> that \<^verbatim>\<open>computeParams\<close> returns.\<close>

record params =
  totalW :: int
  totalB :: int
  total :: int
  breakdown :: "breakdown_entry list"

text \<open>
  The body of \<^verbatim>\<open>for (let i = 1; i < layers.length; i++)\<close>, with the loop counter
  and the three accumulators as arguments. Inside the loop \<open>1 \<le> i < length\<close>, so
  both array reads are in range.
\<close>

function computeParams_loop ::
  "layer_spec list \<Rightarrow> nat \<Rightarrow> int \<Rightarrow> int \<Rightarrow> breakdown_entry list \<Rightarrow> params" where
  "computeParams_loop lys i tw tb bd =
     (if i < length lys then
        (let n_in = nodes (lys ! (i - 1));
             n_out = nodes (lys ! i);
             w = n_in * n_out;
             b = n_out
         in computeParams_loop lys (i + 1) (tw + w) (tb + b)
              (bd @ [\<lparr>layer = i, nin = n_in, nout = n_out, W = w, B = b\<rparr>]))
      else \<lparr>totalW = tw, totalB = tb, total = tw + tb, breakdown = bd\<rparr>)"
  by pat_completeness auto
termination
  by (relation "measure (\<lambda>(lys, i, tw, tb, bd). length lys - i)") auto

text \<open>The loop equation unfolds without end under the simplifier: it is applied by hand.\<close>

declare computeParams_loop.simps [simp del]

definition computeParams :: "layer_spec list \<Rightarrow> params" where
  "computeParams lys = computeParams_loop lys 1 0 0 []"

subsection \<open>JavaScript array operations used by the state updates\<close>

text \<open>
  \<^verbatim>\<open>Array.prototype.map\<close> and \<^verbatim>\<open>Array.prototype.filter\<close> pass the element and its
  index to the callback. The index is threaded through the recursion.
\<close>

fun array_map_from :: "nat \<Rightarrow> ('a \<Rightarrow> nat \<Rightarrow> 'b) \<Rightarrow> 'a list \<Rightarrow> 'b list" where
  "array_map_from i f [] = []"
| "array_map_from i f (x # xs) = f x i # array_map_from (Suc i) f xs"

definition array_map :: "('a \<Rightarrow> nat \<Rightarrow> 'b) \<Rightarrow> 'a list \<Rightarrow> 'b list" where
  "array_map f xs = array_map_from 0 f xs"

fun array_filter_from :: "nat \<Rightarrow> ('a \<Rightarrow> nat \<Rightarrow> bool) \<Rightarrow> 'a list \<Rightarrow> 'a list" where
  "array_filter_from i p [] = []"
| "array_filter_from i p (x # xs) =
     (if p x i then x # array_filter_from (Suc i) p xs else array_filter_from (Suc i) p xs)"

definition array_filter :: "('a \<Rightarrow> nat \<Rightarrow> bool) \<Rightarrow> 'a list \<Rightarrow> 'a list" where
  "array_filter p xs = array_filter_from 0 p xs"

text \<open>
  \<^verbatim>\<open>xs.splice(start, 0, item)\<close>: a negative \<open>start\<close> counts from the end and is
  clamped at 0, a \<open>start\<close> beyond the end is clamped at the length; nothing is
  deleted and \<open>item\<close> is inserted at the resulting position.
\<close>

definition splice_insert :: "int \<Rightarrow> 'a \<Rightarrow> 'a list \<Rightarrow> 'a list" where
  "splice_insert start item xs =
     (let len = int (length xs);
          k = nat (if start < 0 then max (len + start) 0 else min start len)
      in take k xs @ [item] @ drop k xs)"

subsection \<open>The state of \<^verbatim>\<open>App\<close> and its update callbacks\<close>

text \<open>
  \<^verbatim>\<open>App\<close> holds \<^verbatim>\<open>layers\<close> and \<^verbatim>\<open>sel\<close>. Events are handled one at a time, so
  the values a callback closes over (\<^verbatim>\<open>n\<close>, \<^verbatim>\<open>isAtMaxLayers\<close>) are those of the
  state it updates. \<^verbatim>\<open>addLayer\<close>, \<^verbatim>\<open>updateNodes\<close> and \<^verbatim>\<open>updateAct\<close> only call
  \<^verbatim>\<open>setLayers\<close>; \<^verbatim>\<open>removeLayer\<close> also calls \<^verbatim>\<open>setSel\<close>. None of them throws.
\<close>

record app_state =
  layers :: "layer_spec list"
  sel :: int

text \<open>
  \<^verbatim>\<open>outputNodes = layers[n - 1].nodes\<close>. On an empty array \<^verbatim>\<open>layers[-1]\<close> is
  \<^verbatim>\<open>undefined\<close> and reading \<^verbatim>\<open>.nodes\<close> throws: that is \<open>None\<close>.
\<close>

definition outputNodes :: "layer_spec list \<Rightarrow> int option" where
  "outputNodes lys = (if lys = [] then None else Some (nodes (lys ! (length lys - 1))))"

definition isAtMaxLayers :: "layer_spec list \<Rightarrow> bool" where
  "isAtMaxLayers lys = (length lys \<ge> MAX_LAYERS)"

definition isAtMinLayers :: "layer_spec list \<Rightarrow> bool" where
  "isAtMinLayers lys = (length lys \<le> 3)"

definition addLayer :: "layer_spec list \<Rightarrow> layer_spec list" where
  "addLayer lys =
     (if isAtMaxLayers lys then lys
      else splice_insert (int (length lys) - 1) \<lparr>nodes = 4, activation = ''ReLU''\<rparr> lys)"

definition removeLayer :: "app_state \<Rightarrow> nat \<Rightarrow> app_state" where
  "removeLayer st idx =
     \<lparr>layers = array_filter (\<lambda>_ i. i \<noteq> idx) (layers st),
      sel = max 1 (min (sel st) (int (length (layers st)) - 3))\<rparr>"

definition updateNodes :: "layer_spec list \<Rightarrow> nat \<Rightarrow> int \<Rightarrow> layer_spec list" where
  "updateNodes lys idx delta =
     array_map (\<lambda>l i. if i = idx
                      then l\<lparr>nodes := max MIN_NODES (min MAX_NODES (nodes l + delta))\<rparr>
                      else l) lys"

definition updateAct :: "layer_spec list \<Rightarrow> nat \<Rightarrow> string \<Rightarrow> layer_spec list" where
  "updateAct lys idx act =
     array_map (\<lambda>l i. if i = idx then l\<lparr>activation := act\<rparr> else l) lys"

subsection \<open>The controls of a \<^verbatim>\<open>LayerCard\<close>\<close>

text \<open>
  \<^verbatim>\<open>App\<close> renders one card per layer, \<open>index = 0, \<dots>, n - 1\<close>, with the prop \<^verbatim>\<open>total\<close> \<open>= n\<close>.
  A card shows the activation \<^verbatim>\<open><select>\<close> and the remove button only when it is
  neither the input nor the output card; the remove button's click handler calls
  \<^verbatim>\<open>onRemove\<close> only when \<^verbatim>\<open>isAtMinLayers\<close> is false. A user command on a control
  that is not rendered cannot occur: it is \<open>None\<close>. The \<^verbatim>\<open><select>\<close> offers the
  entries of \<^verbatim>\<open>ACTIVATIONS\<close> and no other value.
\<close>

definition isInput :: "nat \<Rightarrow> bool" where
  "isInput index = (index = 0)"

definition isOutput :: "nat \<Rightarrow> nat \<Rightarrow> bool" where
  "isOutput index n_total = (int index = int n_total - 1)"

definition hiddenControls_rendered :: "layer_spec list \<Rightarrow> nat \<Rightarrow> bool" where
  "hiddenControls_rendered lys index =
     (index < length lys \<and> \<not> isInput index \<and> \<not> isOutput index (length lys))"

definition removeButton_onClick :: "app_state \<Rightarrow> nat \<Rightarrow> app_state" where
  "removeButton_onClick st index =
     (if \<not> isAtMinLayers (layers st) then removeLayer st index else st)"

definition LayerCard_remove :: "app_state \<Rightarrow> nat \<Rightarrow> app_state option" where
  "LayerCard_remove st index =
     (if hiddenControls_rendered (layers st) index
      then Some (removeButton_onClick st index) else None)"


subsection \<open>Loss selection in \<^verbatim>\<open>LossPanel\<close>\<close>

text \<open>
  The keys of \<^verbatim>\<open>LOSSES\<close> and their \<^verbatim>\<open>requiresBinary\<close> flags. \<open>K\<close> is the prop the
  panel receives, \<^verbatim>\<open>outputNodes\<close>. A loss button's click handler sets the key
  unless the button is disabled; the effect with dependencies \<^verbatim>\<open>[K, lossKey]\<close>
  runs after a render in which either changed.
\<close>

datatype loss_key = ce | bce | focal | ls

fun requiresBinary :: "loss_key \<Rightarrow> bool" where
  "requiresBinary ce = False"
| "requiresBinary bce = True"
| "requiresBinary focal = False"
| "requiresBinary ls = False"

definition isDisabled :: "int \<Rightarrow> loss_key \<Rightarrow> bool" where
  "isDisabled K key = (requiresBinary key \<and> K \<noteq> 2)"

definition lossButton_onClick :: "int \<Rightarrow> loss_key \<Rightarrow> loss_key \<Rightarrow> loss_key" where
  "lossButton_onClick K lossKey key = (if \<not> isDisabled K key then key else lossKey)"

definition autoSwitch_effect :: "int \<Rightarrow> loss_key \<Rightarrow> loss_key" where
  "autoSwitch_effect K lossKey = (if requiresBinary lossKey \<and> K \<noteq> 2 then ce else lossKey)"

subsection \<open>Formula strings\<close>

text \<open>
  The formulas are LaTeX strings. A backslash cannot be written inside a HOL string
  literal, so \<open>BS\<close> stands for it: \<open>BS # ''hat{y}''\<close> is the LaTeX command
  \<^verbatim>\<open>hat{y}\<close> with its leading backslash.
\<close>

definition BS :: char where
  "BS = CHR 0x5C"

text \<open>
  A template literal prints an array index in decimal.
\<close>

definition digit_char :: "nat \<Rightarrow> char" where
  "digit_char d = ''0123456789'' ! d"

function showNat :: "nat \<Rightarrow> string" where
  "showNat n = (if n < 10 then [digit_char n] else showNat (n div 10) @ [digit_char (n mod 10)])"
  by pat_completeness auto
termination
  by (relation "measure (\<lambda>n. n)") auto

declare showNat.simps [simp del]

text \<open>
  \<^verbatim>\<open>compTex\<close>: \<^verbatim>\<open>let inner = "x"; for (let i = n - 1; i >= 1; i--) { ... }\<close>. The
  second argument is the loop counter \<open>i\<close>; the body runs while \<open>i \<ge> 1\<close> and reads
  \<^verbatim>\<open>layers[i]\<close> with \<open>i \<le> n - 1\<close>.
\<close>

fun compTex_loop :: "layer_spec list \<Rightarrow> nat \<Rightarrow> string \<Rightarrow> string" where
  "compTex_loop lys 0 inner = inner"
| "compTex_loop lys (Suc k) inner =
     (let i = Suc k;
          ac = activation (lys ! i);
          fn = (if ac = ''Softmax''
                then BS # ''operatorname{softmax}''
                else BS # ''sigma_{'' @ BS # ''scriptscriptstyle'' @ BS # ''text{'' @ ac @ ''}}'')
      in compTex_loop lys (i - 1)
           (fn @ BS # ''!'' @ BS # ''bigl(W^{('' @ showNat i @ '')}'' @ inner
               @ '' + b^{('' @ showNat i @ '')}'' @ BS # ''bigr)''))"

definition compTex :: "layer_spec list \<Rightarrow> string" where
  "compTex lys = ''f(x) = '' @ compTex_loop lys (length lys - 1) ''x''"

text \<open>
  The gradient formulas of the loss catalogue. \<^verbatim>\<open>params\<close> of \<^verbatim>\<open>LossPanel\<close> is
  \<^verbatim>\<open>{ gamma, eps }\<close>; the slider for \<open>gamma\<close> has \<^verbatim>\<open>min: 0, max: 5, step: 0.5\<close>, so
  \<open>gamma\<close> and \<open>gamma - 1\<close> are exact. How the runtime prints a Number inside a
  template literal is the parameter \<open>numStr\<close>.
\<close>

record loss_params =
  gamma :: real
  eps :: real

definition ce_gradFormula :: string where
  "ce_gradFormula =
     BS # ''frac{'' @ BS # ''partial '' @ BS # ''mathcal{L}}{'' @ BS # ''partial z^{(L)}_i} = ''
       @ BS # ''hat{y}_i - y_i''"

definition focal_gradFormula :: "(real \<Rightarrow> string) \<Rightarrow> loss_params \<Rightarrow> string" where
  "focal_gradFormula numStr p =
     BS # ''frac{'' @ BS # ''partial '' @ BS # ''mathcal{L}}{'' @ BS # ''partial z_i} = (1-''
       @ BS # ''hat{y}_{y^*})^{'' @ numStr (gamma p) @ ''}('' @ BS # ''hat{y}_i - y_i) - ''
       @ numStr (gamma p) @ ''(1-'' @ BS # ''hat{y}_{y^*})^{'' @ numStr (max 0 (gamma p - 1))
       @ ''}'' @ BS # ''log('' @ BS # ''hat{y}_{y^*})'' @ BS # ''hat{y}_{y^*}(''
       @ BS # ''delta_{i,y^*} - '' @ BS # ''hat{y}_i)''"

subsection \<open>The illustrative weight: \<^verbatim>\<open>seedVal\<close>\<close>

text \<open>
  \<^verbatim>\<open>seedVal(li, r, c)\<close> multiplies a sine by 43758.5453, takes the fractional part,
  maps it to \<open>[-1, 1)\<close> and returns \<^verbatim>\<open>parseFloat(v.toFixed(2))\<close>. The numbers are
  read as reals. \<^verbatim>\<open>Math.sin\<close> belongs to the runtime and is the parameter
  \<open>Math_sin\<close>. \<^verbatim>\<open>toFixed(2)\<close> prints the sign and then the multiple of 0.01 nearest
  to the magnitude, the larger one on a tie; \<^verbatim>\<open>parseFloat\<close> reads that decimal back.
\<close>

definition toFixed2 :: "real \<Rightarrow> real" where
  "toFixed2 v =
     (if v < 0 then - (of_int \<lfloor>(- v) * 100 + 1 / 2\<rfloor> / 100)
      else of_int \<lfloor>v * 100 + 1 / 2\<rfloor> / 100)"

definition seedVal :: "(real \<Rightarrow> real) \<Rightarrow> int \<Rightarrow> int \<Rightarrow> int \<Rightarrow> real" where
  "seedVal Math_sin li r c =
     (let x = Math_sin (of_int (li * 7919 + r * 1013 + c * 431)) * (437585453 / 10000)
      in toFixed2 ((x - of_int \<lfloor>x\<rfloor>) * 2 - 1))"

subsection \<open>Auxiliary notions used in the statements\<close>

text \<open>The entry the loop pushes for transition \<open>i\<close>.\<close>

definition entry_of :: "layer_spec list \<Rightarrow> nat \<Rightarrow> breakdown_entry" where
  "entry_of lys i =
     \<lparr>layer = i, nin = nodes (lys ! (i - 1)), nout = nodes (lys ! i),
      W = nodes (lys ! (i - 1)) * nodes (lys ! i), B = nodes (lys ! i)\<rparr>"

text \<open>Every width lies between \<^verbatim>\<open>MIN_NODES\<close> and \<^verbatim>\<open>MAX_NODES\<close>.\<close>

definition widths_ok :: "layer_spec list \<Rightarrow> bool" where
  "widths_ok lys = list_all (\<lambda>l. MIN_NODES \<le> nodes l \<and> nodes l \<le> MAX_NODES) lys"

text \<open>A sequence of \<^verbatim>\<open>updateNodes(idx, delta)\<close> calls, applied in order.\<close>

fun resize_calls :: "layer_spec list \<Rightarrow> (nat \<times> int) list \<Rightarrow> layer_spec list" where
  "resize_calls lys [] = lys"
| "resize_calls lys ((idx, delta) # calls) = resize_calls (updateNodes lys idx delta) calls"

text \<open>
  What one pass of the loop of \<^verbatim>\<open>compTex\<close> puts around \<open>inner\<close> for layer \<open>i\<close>.
\<close>

definition wrapper :: "layer_spec list \<Rightarrow> nat \<Rightarrow> string \<Rightarrow> string" where
  "wrapper lys i inner =
     (if activation (lys ! i) = ''Softmax''
      then BS # ''operatorname{softmax}''
      else BS # ''sigma_{'' @ BS # ''scriptscriptstyle'' @ BS # ''text{'' @ activation (lys ! i) @ ''}}'')
     @ BS # ''!'' @ BS # ''bigl(W^{('' @ showNat i @ '')}'' @ inner
     @ '' + b^{('' @ showNat i @ '')}'' @ BS # ''bigr)''"

subsection \<open>Reading the gradient formulas\<close>

text \<open>
  To speak about what a formula string denotes, the fragment of LaTeX the two gradient
  formulas use is given a syntax tree, a printer \<open>render\<close> and a value \<open>eval\<close> over the
  reals (juxtaposition is a product, \<open>a^{b}\<close> is \<open>a powr b\<close>). The theorems tie each
  tree to the string the code emits through \<open>render\<close>.
\<close>

datatype tex =
    Sym string
  | Num real
  | OneMinus tex
  | Pow tex tex
  | Juxt tex tex
  | Diff tex tex
  | Paren tex
  | Log tex

fun render :: "(real \<Rightarrow> string) \<Rightarrow> tex \<Rightarrow> string" where
  "render numStr (Sym s) = s"
| "render numStr (Num r) = numStr r"
| "render numStr (OneMinus a) = ''(1-'' @ render numStr a @ '')''"
| "render numStr (Pow a b) = render numStr a @ ''^{'' @ render numStr b @ ''}''"
| "render numStr (Juxt a b) = render numStr a @ render numStr b"
| "render numStr (Diff a b) = render numStr a @ '' - '' @ render numStr b"
| "render numStr (Paren a) = ''('' @ render numStr a @ '')''"
| "render numStr (Log a) = BS # ''log('' @ render numStr a @ '')''"

fun eval :: "(string \<Rightarrow> real) \<Rightarrow> tex \<Rightarrow> real" where
  "eval env (Sym s) = env s"
| "eval env (Num r) = r"
| "eval env (OneMinus a) = 1 - eval env a"
| "eval env (Pow a b) = eval env a powr eval env b"
| "eval env (Juxt a b) = eval env a * eval env b"
| "eval env (Diff a b) = eval env a - eval env b"
| "eval env (Paren a) = eval env a"
| "eval env (Log a) = ln (eval env a)"

text \<open>The symbols and the parts of the focal-loss gradient, as trees.\<close>

definition yhat_star :: tex where
  "yhat_star = Sym (BS # ''hat{y}_{y^*}'')"

definition yhat_i :: tex where
  "yhat_i = Sym (BS # ''hat{y}_i'')"

definition y_i :: tex where
  "y_i = Sym ''y_i''"

definition delta_i :: tex where
  "delta_i = Sym (BS # ''delta_{i,y^*}'')"

definition residual :: tex where
  "residual = Diff yhat_i y_i"

definition modulating :: "real \<Rightarrow> tex" where
  "modulating g = Pow (OneMinus yhat_star) (Num g)"

definition correction :: "real \<Rightarrow> tex" where
  "correction g =
     Juxt (Num g)
       (Juxt (Pow (OneMinus yhat_star) (Num (max 0 (g - 1))))
          (Juxt (Log yhat_star) (Juxt yhat_star (Paren (Diff delta_i yhat_i)))))"

definition focal_grad_rhs :: "real \<Rightarrow> tex" where
  "focal_grad_rhs g = Diff (Juxt (modulating g) (Paren residual)) (correction g)"

definition focal_grad_lhs :: string where
  "focal_grad_lhs = BS # ''frac{'' @ BS # ''partial '' @ BS # ''mathcal{L}}{'' @ BS # ''partial z_i} = ''"

definition ce_grad_lhs :: string where
  "ce_grad_lhs = BS # ''frac{'' @ BS # ''partial '' @ BS # ''mathcal{L}}{'' @ BS # ''partial z^{(L)}_i} = ''"

text \<open>The value of \<^verbatim>\<open>seedVal\<close> before \<^verbatim>\<open>toFixed(2)\<close>.\<close>

definition seedVal_raw :: "(real \<Rightarrow> real) \<Rightarrow> int \<Rightarrow> int \<Rightarrow> int \<Rightarrow> real" where
  "seedVal_raw Math_sin li r c =
     (let x = Math_sin (of_int (li * 7919 + r * 1013 + c * 431)) * (437585453 / 10000)
      in (x - of_int \<lfloor>x\<rfloor>) * 2 - 1)"

section \<open>Facts about the array operations\<close>

lemma length_array_map_from: "length (array_map_from k f xs) = length xs"
  by (induction xs arbitrary: k) simp_all

lemma nth_array_map_from:
  "i < length xs \<Longrightarrow> array_map_from k f xs ! i = f (xs ! i) (k + i)"
proof (induction xs arbitrary: k i)
  case Nil
  then show ?case by simp
next
  case (Cons x xs)
  show ?case
  proof (cases i)
    case 0
    then show ?thesis by simp
  next
    case (Suc j)
    with Cons.prems have "j < length xs" by simp
    from Cons.IH [OF this, of "Suc k"] Suc show ?thesis by simp
  qed
qed

lemma length_array_map: "length (array_map f xs) = length xs"
  by (simp add: array_map_def length_array_map_from)

lemma nth_array_map: "i < length xs \<Longrightarrow> array_map f xs ! i = f (xs ! i) i"
  by (simp add: array_map_def nth_array_map_from)

lemma array_map_update_at:
  "array_map (\<lambda>l i. if i = idx then g l else l) xs = (if idx < length xs then xs[idx := g (xs ! idx)] else xs)"
  by (rule nth_equalityI) (auto simp: length_array_map nth_array_map nth_list_update)

lemma array_filter_from_drop_index:
  "array_filter_from k (\<lambda>_ i. i \<noteq> idx) xs =
     (if idx < k then xs else take (idx - k) xs @ drop (Suc (idx - k)) xs)"
proof (induction xs arbitrary: k)
  case Nil
  then show ?case by simp
next
  case (Cons x xs)
  show ?case
  proof (cases "idx < k")
    case True
    then show ?thesis using Cons.IH [of "Suc k"] by simp
  next
    case False
    show ?thesis
    proof (cases "idx = k")
      case True
      then show ?thesis using Cons.IH [of "Suc k"] by simp
    next
      case neq: False
      with False have gt: "k < idx" by simp
      then obtain m where m: "idx - k = Suc m" by (cases "idx - k") auto
      then have "idx - Suc k = m" by simp
      with gt m show ?thesis using Cons.IH [of "Suc k"] by simp
    qed
  qed
qed

lemma array_filter_drop_index:
  "array_filter (\<lambda>_ i. i \<noteq> idx) xs = take idx xs @ drop (Suc idx) xs"
  by (simp add: array_filter_def array_filter_from_drop_index)

lemma updateNodes_update:
  "updateNodes lys idx delta =
     (if idx < length lys
      then lys[idx := (lys ! idx)\<lparr>nodes := max MIN_NODES (min MAX_NODES (nodes (lys ! idx) + delta))\<rparr>]
      else lys)"
  unfolding updateNodes_def by (rule array_map_update_at)

lemma updateAct_update:
  "updateAct lys idx act =
     (if idx < length lys then lys[idx := (lys ! idx)\<lparr>activation := act\<rparr>] else lys)"
  unfolding updateAct_def by (rule array_map_update_at)

section \<open>Parameter accounting\<close>

lemma computeParams_loop_closed:
  "computeParams_loop lys i tw tb bd =
     \<lparr>totalW = tw + sum_list (map (\<lambda>k. W (entry_of lys k)) [i..<length lys]),
      totalB = tb + sum_list (map (\<lambda>k. B (entry_of lys k)) [i..<length lys]),
      total = (tw + sum_list (map (\<lambda>k. W (entry_of lys k)) [i..<length lys]))
            + (tb + sum_list (map (\<lambda>k. B (entry_of lys k)) [i..<length lys])),
      breakdown = bd @ map (entry_of lys) [i..<length lys]\<rparr>"
proof (induction lys i tw tb bd rule: computeParams_loop.induct)
  case (1 lys i tw tb bd)
  show ?case
  proof (cases "i < length lys")
    case True
    then have up: "[i..<length lys] = i # [Suc i..<length lys]"
      by (simp add: upt_conv_Cons)
    have step: "computeParams_loop lys i tw tb bd =
        computeParams_loop lys (i + 1) (tw + W (entry_of lys i)) (tb + B (entry_of lys i))
          (bd @ [entry_of lys i])"
      using True by (subst computeParams_loop.simps) (simp add: entry_of_def Let_def)
    show ?thesis
      unfolding step
      using "1.IH" [OF True refl refl refl refl]
      by (simp add: up entry_of_def Let_def algebra_simps)
  next
    case False
    then show ?thesis
      by (subst computeParams_loop.simps) simp
  qed
qed

lemma computeParams_closed:
  "computeParams lys =
     \<lparr>totalW = sum_list (map (\<lambda>k. W (entry_of lys k)) [1..<length lys]),
      totalB = sum_list (map (\<lambda>k. B (entry_of lys k)) [1..<length lys]),
      total = sum_list (map (\<lambda>k. W (entry_of lys k)) [1..<length lys])
            + sum_list (map (\<lambda>k. B (entry_of lys k)) [1..<length lys]),
      breakdown = map (entry_of lys) [1..<length lys]\<rparr>"
  unfolding computeParams_def computeParams_loop_closed by simp

lemma computeParams_default:
  "computeParams defaultLayers =
     \<lparr>totalW = 43, totalB = 11, total = 54,
      breakdown =
        [\<lparr>layer = 1, nin = 3, nout = 5, W = 15, B = 5\<rparr>,
         \<lparr>layer = 2, nin = 5, nout = 4, W = 20, B = 4\<rparr>,
         \<lparr>layer = 3, nin = 4, nout = 2, W = 8, B = 2\<rparr>]\<rparr>"
proof -
  have len: "length defaultLayers = 4"
    by (simp add: defaultLayers_def)
  have up: "[1..<4] = [1, 2, 3::nat]"
    by (simp add: upt_rec)
  show ?thesis
    unfolding computeParams_closed len up
    by (simp add: entry_of_def defaultLayers_def)
qed

text \<open>
  C1. For every architecture, \<^verbatim>\<open>computeParams\<close> returns one breakdown entry per
  transition \<open>i = 1, \<dots>, L-1\<close>, in order, holding \<open>nin\<close> = width of layer \<open>i-1\<close>,
  \<open>nout\<close> = width of layer \<open>i\<close>, \<open>W = nin * nout\<close> and \<open>B = nout\<close>; \<open>totalW\<close> is
  the sum of the entries' \<open>W\<close>, \<open>totalB\<close> the sum of their \<open>B\<close>, and
  \<open>total = totalW + totalB\<close>. On the default widths 3, 5, 4, 2 the totals are
  43 weights, 11 biases, 54 parameters.
\<close>

theorem C1_computeParams_counts:
  "breakdown (computeParams lys) =
     map (\<lambda>i. \<lparr>layer = i, nin = nodes (lys ! (i - 1)), nout = nodes (lys ! i),
               W = nodes (lys ! (i - 1)) * nodes (lys ! i), B = nodes (lys ! i)\<rparr>)
       [1..<length lys]
   \<and> totalW (computeParams lys) = sum_list (map W (breakdown (computeParams lys)))
   \<and> totalB (computeParams lys) = sum_list (map B (breakdown (computeParams lys)))
   \<and> total (computeParams lys) = totalW (computeParams lys) + totalB (computeParams lys)
   \<and> map nodes defaultLayers = [3, 5, 4, 2]
   \<and> totalW (computeParams defaultLayers) = 43
   \<and> totalB (computeParams defaultLayers) = 11
   \<and> total (computeParams defaultLayers) = 54"
proof -
  have "map nodes defaultLayers = [3, 5, 4, 2]"
    by (simp add: defaultLayers_def)
  moreover have "breakdown (computeParams lys) = map (entry_of lys) [1..<length lys]"
    by (simp add: computeParams_closed)
  moreover have "totalW (computeParams lys) = sum_list (map W (breakdown (computeParams lys)))"
    by (simp add: computeParams_closed comp_def)
  moreover have "totalB (computeParams lys) = sum_list (map B (breakdown (computeParams lys)))"
    by (simp add: computeParams_closed comp_def)
  moreover have "total (computeParams lys) = totalW (computeParams lys) + totalB (computeParams lys)"
    by (simp add: computeParams_closed)
  ultimately show ?thesis
    by (simp add: computeParams_default entry_of_def)
qed

section \<open>Resizing a layer\<close>

lemma length_updateNodes: "length (updateNodes lys idx delta) = length lys"
  by (simp add: updateNodes_def length_array_map)

lemma nth_updateNodes:
  "i < length lys \<Longrightarrow>
   updateNodes lys idx delta ! i =
     (if i = idx then (lys ! i)\<lparr>nodes := max MIN_NODES (min MAX_NODES (nodes (lys ! i) + delta))\<rparr>
      else lys ! i)"
  by (simp add: updateNodes_def nth_array_map)

lemma widths_ok_updateNodes: "widths_ok lys \<Longrightarrow> widths_ok (updateNodes lys idx delta)"
  unfolding widths_ok_def list_all_length
  by (auto simp: length_updateNodes nth_updateNodes MIN_NODES_def MAX_NODES_def)

lemma widths_ok_resize_calls: "widths_ok lys \<Longrightarrow> widths_ok (resize_calls lys calls)"
  by (induction lys calls rule: resize_calls.induct) (simp_all add: widths_ok_updateNodes)

lemma updateNodes_saturates_up:
  "idx < length lys \<Longrightarrow> nodes (lys ! idx) = MAX_NODES \<Longrightarrow> 0 \<le> delta \<Longrightarrow> updateNodes lys idx delta = lys"
  by (rule nth_equalityI)
     (auto simp: length_updateNodes nth_updateNodes MIN_NODES_def MAX_NODES_def)

lemma updateNodes_saturates_down:
  "idx < length lys \<Longrightarrow> nodes (lys ! idx) = MIN_NODES \<Longrightarrow> delta \<le> 0 \<Longrightarrow> updateNodes lys idx delta = lys"
  by (rule nth_equalityI)
     (auto simp: length_updateNodes nth_updateNodes MIN_NODES_def MAX_NODES_def)

text \<open>
  C5. \<^verbatim>\<open>updateNodes(idx, delta)\<close> sets the width of layer \<open>idx\<close> to
  \<open>max 1 (min 8 (width + delta))\<close>, for a delta of any size; the new width lies in
  \<open>[1, 8]\<close>; no other layer and no activation changes; at width 8 a call with \<open>+1\<close>
  (and at width 1 a call with \<open>-1\<close>) returns the architecture unchanged; and an
  architecture whose widths are all in \<open>[1, 8]\<close> stays so under any sequence of calls.
\<close>

theorem C5_updateNodes_clamps:
  "MIN_NODES = 1 \<and> MAX_NODES = 8
   \<and> length (updateNodes lys idx delta) = length lys
   \<and> (idx < length lys \<longrightarrow>
        nodes (updateNodes lys idx delta ! idx) = max 1 (min 8 (nodes (lys ! idx) + delta))
        \<and> 1 \<le> nodes (updateNodes lys idx delta ! idx)
        \<and> nodes (updateNodes lys idx delta ! idx) \<le> 8
        \<and> activation (updateNodes lys idx delta ! idx) = activation (lys ! idx))
   \<and> (\<forall>i < length lys. i \<noteq> idx \<longrightarrow> updateNodes lys idx delta ! i = lys ! i)
   \<and> (idx < length lys \<and> nodes (lys ! idx) = 8 \<longrightarrow> updateNodes lys idx 1 = lys)
   \<and> (idx < length lys \<and> nodes (lys ! idx) = 1 \<longrightarrow> updateNodes lys idx (- 1) = lys)
   \<and> (widths_ok lys \<longrightarrow> widths_ok (resize_calls lys calls))"
proof -
  have "idx < length lys \<longrightarrow>
        nodes (updateNodes lys idx delta ! idx) = max 1 (min 8 (nodes (lys ! idx) + delta))
        \<and> 1 \<le> nodes (updateNodes lys idx delta ! idx)
        \<and> nodes (updateNodes lys idx delta ! idx) \<le> 8
        \<and> activation (updateNodes lys idx delta ! idx) = activation (lys ! idx)"
    by (simp add: nth_updateNodes MIN_NODES_def MAX_NODES_def)
  moreover have "\<forall>i < length lys. i \<noteq> idx \<longrightarrow> updateNodes lys idx delta ! i = lys ! i"
    by (simp add: nth_updateNodes)
  moreover have "idx < length lys \<and> nodes (lys ! idx) = 8 \<longrightarrow> updateNodes lys idx 1 = lys"
    using updateNodes_saturates_up [of idx lys 1] by (simp add: MAX_NODES_def)
  moreover have "idx < length lys \<and> nodes (lys ! idx) = 1 \<longrightarrow> updateNodes lys idx (- 1) = lys"
    using updateNodes_saturates_down [of idx lys "- 1"] by (simp add: MIN_NODES_def)
  moreover have "widths_ok lys \<longrightarrow> widths_ok (resize_calls lys calls)"
    by (simp add: widths_ok_resize_calls)
  ultimately show ?thesis
    by (simp add: MIN_NODES_def MAX_NODES_def length_updateNodes)
qed

lemma widths_ok_default: "widths_ok defaultLayers"
  by (simp add: widths_ok_def defaultLayers_def MIN_NODES_def MAX_NODES_def)

theorem C5_updateNodes_clamps_witness:
  "(1::nat) < length defaultLayers
   \<and> nodes (defaultLayers ! 1) = 5
   \<and> nodes (updateNodes defaultLayers 1 100 ! 1) = 8
   \<and> updateNodes (updateNodes defaultLayers 1 100) 1 1 = updateNodes defaultLayers 1 100
   \<and> updateNodes defaultLayers 1 100 ! 2 = defaultLayers ! 2
   \<and> widths_ok defaultLayers
   \<and> widths_ok (resize_calls defaultLayers [(1, 100), (1, 1), (3, - 7), (0, 2)])"
proof -
  have len: "length defaultLayers = 4"
    by (simp add: defaultLayers_def)
  have n1: "nodes (defaultLayers ! 1) = 5"
    by (simp add: defaultLayers_def)
  have ok: "widths_ok defaultLayers"
    by (rule widths_ok_default)
  have big: "nodes (updateNodes defaultLayers 1 100 ! 1) = 8"
    using C5_updateNodes_clamps [of defaultLayers 1 100 "[]"] len n1 by simp
  have other: "updateNodes defaultLayers 1 100 ! 2 = defaultLayers ! 2"
    using C5_updateNodes_clamps [of defaultLayers 1 100 "[]"] len by simp
  have again: "updateNodes (updateNodes defaultLayers 1 100) 1 1 = updateNodes defaultLayers 1 100"
    using C5_updateNodes_clamps [of "updateNodes defaultLayers 1 100" 1 1 "[]"] len big
    by (simp add: length_updateNodes)
  have calls: "widths_ok (resize_calls defaultLayers [(1, 100), (1, 1), (3, - 7), (0, 2)])"
    using C5_updateNodes_clamps [of defaultLayers 1 100 "[(1, 100), (1, 1), (3, - 7), (0, 2)]"] ok
    by blast
  from len n1 big other again ok calls show ?thesis
    by simp
qed

section \<open>Inserting a hidden layer\<close>

text \<open>
  C6. \<^verbatim>\<open>addLayer\<close> returns the architecture unchanged when it has \<^verbatim>\<open>MAX_LAYERS\<close> = 6
  layers; on a non-empty architecture with fewer layers it returns the same layers in
  the same order with one new layer of width 4 and activation ReLU placed immediately
  before the last (output) layer.
\<close>

theorem C6_addLayer_insert:
  "MAX_LAYERS = 6
   \<and> (length lys = MAX_LAYERS \<longrightarrow> addLayer lys = lys)
   \<and> (lys \<noteq> [] \<and> length lys < MAX_LAYERS \<longrightarrow>
        addLayer lys = butlast lys @ [\<lparr>nodes = 4, activation = ''ReLU''\<rparr>, last lys])"
proof -
  have "lys \<noteq> [] \<and> length lys < MAX_LAYERS \<longrightarrow>
        addLayer lys = butlast lys @ [\<lparr>nodes = 4, activation = ''ReLU''\<rparr>, last lys]"
  proof
    assume a: "lys \<noteq> [] \<and> length lys < MAX_LAYERS"
    then have pos: "0 < length lys" by simp
    then have k: "nat (int (length lys) - 1) = length lys - 1"
      by simp
    have t: "take (length lys - 1) lys = butlast lys"
      by (simp add: butlast_conv_take)
    have d: "drop (length lys - 1) lys = [last lys]"
      using a by (metis append_butlast_last_id append_eq_conv_conj length_butlast)
    from a pos t d show "addLayer lys = butlast lys @ [\<lparr>nodes = 4, activation = ''ReLU''\<rparr>, last lys]"
      by (simp add: addLayer_def isAtMaxLayers_def splice_insert_def Let_def k)
  qed
  then show ?thesis
    by (simp add: addLayer_def isAtMaxLayers_def MAX_LAYERS_def)
qed

theorem C6_addLayer_insert_witness:
  "defaultLayers \<noteq> [] \<and> length defaultLayers < MAX_LAYERS
   \<and> addLayer defaultLayers =
       [\<lparr>nodes = 3, activation = ''Linear''\<rparr>, \<lparr>nodes = 5, activation = ''ReLU''\<rparr>,
        \<lparr>nodes = 4, activation = ''Tanh''\<rparr>, \<lparr>nodes = 4, activation = ''ReLU''\<rparr>,
        \<lparr>nodes = 2, activation = ''Softmax''\<rparr>]
   \<and> length (addLayer (addLayer defaultLayers)) = MAX_LAYERS
   \<and> addLayer (addLayer (addLayer defaultLayers)) = addLayer (addLayer defaultLayers)"
proof -
  have d: "defaultLayers \<noteq> [] \<and> length defaultLayers < MAX_LAYERS"
    by (simp add: defaultLayers_def MAX_LAYERS_def)
  have a1: "addLayer defaultLayers =
       [\<lparr>nodes = 3, activation = ''Linear''\<rparr>, \<lparr>nodes = 5, activation = ''ReLU''\<rparr>,
        \<lparr>nodes = 4, activation = ''Tanh''\<rparr>, \<lparr>nodes = 4, activation = ''ReLU''\<rparr>,
        \<lparr>nodes = 2, activation = ''Softmax''\<rparr>]"
    using C6_addLayer_insert [of defaultLayers] d by (simp add: defaultLayers_def)
  have a2: "length (addLayer (addLayer defaultLayers)) = MAX_LAYERS"
    using C6_addLayer_insert [of "addLayer defaultLayers"] by (simp add: a1 MAX_LAYERS_def)
  from C6_addLayer_insert [of "addLayer (addLayer defaultLayers)"] d a1 a2
  show ?thesis by simp
qed

section \<open>Parameter counts depend on the widths only\<close>

lemma entry_of_widths:
  assumes "map nodes lys = map nodes lys'" and "k < length lys"
  shows "entry_of lys k = entry_of lys' k"
proof -
  from assms(1) have len: "length lys = length lys'"
    by (rule map_eq_imp_length_eq)
  have nth: "nodes (lys ! i) = nodes (lys' ! i)" if "i < length lys" for i
  proof -
    from that have "nodes (lys ! i) = map nodes lys ! i" by simp
    also have "\<dots> = map nodes lys' ! i" by (simp only: assms(1))
    also from that len have "\<dots> = nodes (lys' ! i)" by simp
    finally show ?thesis .
  qed
  from assms(2) have "k - 1 < length lys" by simp
  with nth [of k] nth [of "k - 1"] assms(2) show ?thesis
    by (simp add: entry_of_def)
qed

lemma computeParams_widths:
  assumes "map nodes lys = map nodes lys'"
  shows "computeParams lys = computeParams lys'"
proof -
  from assms have len: "length lys = length lys'"
    by (rule map_eq_imp_length_eq)
  have e: "map (entry_of lys) [1..<length lys'] = map (entry_of lys') [1..<length lys']"
    by (rule map_cong) (auto simp: entry_of_widths [OF assms] len)
  have w: "map (\<lambda>k. W (entry_of lys k)) [1..<length lys']
         = map (\<lambda>k. W (entry_of lys' k)) [1..<length lys']"
    by (rule map_cong) (auto simp: entry_of_widths [OF assms] len)
  have b: "map (\<lambda>k. B (entry_of lys k)) [1..<length lys']
         = map (\<lambda>k. B (entry_of lys' k)) [1..<length lys']"
    by (rule map_cong) (auto simp: entry_of_widths [OF assms] len)
  show ?thesis
    unfolding computeParams_closed by (simp only: len e w b)
qed

lemma map_nodes_updateAct: "map nodes (updateAct lys idx act) = map nodes lys"
proof (cases "idx < length lys")
  case True
  have "map nodes (lys[idx := (lys ! idx)\<lparr>activation := act\<rparr>])
      = (map nodes lys)[idx := nodes (lys ! idx)]"
    by (simp add: map_update)
  also from True have "\<dots> = map nodes lys"
    by (simp add: list_update_same_conv)
  finally show ?thesis
    using True by (simp add: updateAct_update)
next
  case False
  then show ?thesis
    by (simp add: updateAct_update)
qed

text \<open>
  C10. \<^verbatim>\<open>computeParams\<close> reads the widths only: two architectures with the same
  sequence of widths get the same result (breakdown and all totals), whatever their
  activations; so \<^verbatim>\<open>updateAct\<close>, which leaves every width as it is, leaves the
  result of \<^verbatim>\<open>computeParams\<close> unchanged.
\<close>

theorem C10_computeParams_widths_only:
  "(map nodes lys = map nodes lys' \<longrightarrow> computeParams lys = computeParams lys')
   \<and> map nodes (updateAct lys idx act) = map nodes lys
   \<and> computeParams (updateAct lys idx act) = computeParams lys"
proof -
  have "computeParams (updateAct lys idx act) = computeParams lys"
    by (rule computeParams_widths) (rule map_nodes_updateAct)
  moreover have "map nodes lys = map nodes lys' \<longrightarrow> computeParams lys = computeParams lys'"
    by (rule impI) (rule computeParams_widths)
  ultimately show ?thesis
    by (simp only: map_nodes_updateAct simp_thms)
qed

theorem C10_computeParams_widths_only_witness:
  "map nodes [\<lparr>nodes = 3, activation = ''Linear''\<rparr>, \<lparr>nodes = 5, activation = ''Sigmoid''\<rparr>,
              \<lparr>nodes = 4, activation = ''Linear''\<rparr>, \<lparr>nodes = 2, activation = ''Softmax''\<rparr>]
     = map nodes defaultLayers
   \<and> [\<lparr>nodes = 3, activation = ''Linear''\<rparr>, \<lparr>nodes = 5, activation = ''Sigmoid''\<rparr>,
       \<lparr>nodes = 4, activation = ''Linear''\<rparr>, \<lparr>nodes = 2, activation = ''Softmax''\<rparr>]
     \<noteq> defaultLayers
   \<and> total (computeParams [\<lparr>nodes = 3, activation = ''Linear''\<rparr>, \<lparr>nodes = 5, activation = ''Sigmoid''\<rparr>,
              \<lparr>nodes = 4, activation = ''Linear''\<rparr>, \<lparr>nodes = 2, activation = ''Softmax''\<rparr>]) = 54
   \<and> updateAct defaultLayers 1 ''Sigmoid'' \<noteq> defaultLayers
   \<and> computeParams (updateAct defaultLayers 1 ''Sigmoid'') = computeParams defaultLayers"
proof -
  let ?other = "[\<lparr>nodes = 3, activation = ''Linear''\<rparr>, \<lparr>nodes = 5, activation = ''Sigmoid''\<rparr>,
              \<lparr>nodes = 4, activation = ''Linear''\<rparr>, \<lparr>nodes = 2, activation = ''Softmax''\<rparr>]"
  have w: "map nodes ?other = map nodes defaultLayers"
    by (simp add: defaultLayers_def)
  have ne: "?other \<noteq> defaultLayers"
    by (simp add: defaultLayers_def)
  have up: "updateAct defaultLayers 1 ''Sigmoid'' \<noteq> defaultLayers"
    by (simp add: updateAct_def array_map_def defaultLayers_def)
  have eq: "computeParams ?other = computeParams defaultLayers"
    by (rule C10_computeParams_widths_only [THEN conjunct1, THEN mp]) (rule w)
  have eq2: "computeParams (updateAct defaultLayers 1 ''Sigmoid'') = computeParams defaultLayers"
    by (rule C10_computeParams_widths_only [THEN conjunct2, THEN conjunct2])
  have t: "total (computeParams ?other) = 54"
    unfolding eq by (simp add: computeParams_default)
  show ?thesis
    apply (intro conjI)
        apply (rule w)
       apply (rule ne)
      apply (rule t)
     apply (rule up)
    apply (rule eq2)
    done
qed

section \<open>Loss selection\<close>

text \<open>
  C4. Clicking the button of a loss whose descriptor requires binary output while
  \<open>K \<noteq> 2\<close> leaves the selected key as it is; any other click selects the clicked
  key. The effect that runs when \<open>K\<close> changes moves the selection to Cross-Entropy
  when the selected loss requires binary output and the new \<open>K\<close> is not 2, and in
  every other case leaves it as it is; after a click the effect has nothing left to
  change. Binary CE is the only loss that requires binary output.
\<close>

theorem C4_loss_selection:
  "(requiresBinary key \<and> K \<noteq> 2 \<longrightarrow> lossButton_onClick K lossKey key = lossKey)
   \<and> (\<not> (requiresBinary key \<and> K \<noteq> 2) \<longrightarrow> lossButton_onClick K lossKey key = key)
   \<and> (requiresBinary lossKey \<and> newK \<noteq> 2 \<longrightarrow> autoSwitch_effect newK lossKey = ce)
   \<and> (\<not> (requiresBinary lossKey \<and> newK \<noteq> 2) \<longrightarrow> autoSwitch_effect newK lossKey = lossKey)
   \<and> autoSwitch_effect K (lossButton_onClick K (autoSwitch_effect K lossKey) key)
       = lossButton_onClick K (autoSwitch_effect K lossKey) key
   \<and> (requiresBinary key \<longleftrightarrow> key = bce)"
proof -
  have "requiresBinary key \<longleftrightarrow> key = bce"
    by (cases key) simp_all
  moreover have "autoSwitch_effect K (lossButton_onClick K (autoSwitch_effect K lossKey) key)
       = lossButton_onClick K (autoSwitch_effect K lossKey) key"
    by (simp add: autoSwitch_effect_def lossButton_onClick_def isDisabled_def)
  ultimately show ?thesis
    by (simp add: autoSwitch_effect_def lossButton_onClick_def isDisabled_def)
qed

theorem C4_loss_selection_witness:
  "outputNodes defaultLayers = Some 2
   \<and> outputNodes (updateNodes defaultLayers 3 1) = Some 3
   \<and> lossButton_onClick 3 ce bce = ce
   \<and> lossButton_onClick 2 ce bce = bce
   \<and> autoSwitch_effect 3 bce = ce
   \<and> autoSwitch_effect 3 focal = focal
   \<and> autoSwitch_effect 2 bce = bce"
proof -
  have k2: "outputNodes defaultLayers = Some 2"
    by (simp add: outputNodes_def defaultLayers_def)
  have k3: "outputNodes (updateNodes defaultLayers 3 1) = Some 3"
    by (simp add: outputNodes_def updateNodes_def array_map_def defaultLayers_def
        MIN_NODES_def MAX_NODES_def)
  have rej: "lossButton_onClick 3 ce bce = ce"
    using C4_loss_selection [of bce 3 ce 3] by simp
  have acc: "lossButton_onClick 2 ce bce = bce"
    using C4_loss_selection [of bce 2 ce 2] by simp
  have rev: "autoSwitch_effect 3 bce = ce"
    using C4_loss_selection [of bce 3 bce 3] by simp
  have stay: "autoSwitch_effect 3 focal = focal"
    using C4_loss_selection [of focal 3 focal 3] by simp
  have stay2: "autoSwitch_effect 2 bce = bce"
    using C4_loss_selection [of bce 2 bce 2] by simp
  from k2 k3 rej acc rev stay stay2 show ?thesis
    by (intro conjI)
qed

section \<open>Removing a hidden layer\<close>

lemma hiddenControls_rendered_iff:
  "hiddenControls_rendered lys index \<longleftrightarrow> 0 < index \<and> index + 1 < length lys"
  by (auto simp: hiddenControls_rendered_def isInput_def isOutput_def)

lemma layers_removeLayer:
  "layers (removeLayer st idx) = take idx (layers st) @ drop (Suc idx) (layers st)"
  by (simp add: removeLayer_def array_filter_drop_index)

text \<open>
  C2, as stated, does not hold of the code. \<^verbatim>\<open>removeLayer\<close> has no check and no
  error: on a three-layer architecture it removes the only hidden layer, and with the
  index of the input or of the output layer it removes that layer. The click handler
  of the card, at three layers, returns normally with the state as it was.
\<close>

theorem C2_removeLayer_unguarded_counterexample:
  "layers (removeLayer
      \<lparr>layers = [\<lparr>nodes = 3, activation = ''Linear''\<rparr>, \<lparr>nodes = 5, activation = ''ReLU''\<rparr>,
                 \<lparr>nodes = 2, activation = ''Softmax''\<rparr>], sel = 1\<rparr> 1)
     = [\<lparr>nodes = 3, activation = ''Linear''\<rparr>, \<lparr>nodes = 2, activation = ''Softmax''\<rparr>]
   \<and> layers (removeLayer \<lparr>layers = defaultLayers, sel = 1\<rparr> 0)
     = [\<lparr>nodes = 5, activation = ''ReLU''\<rparr>, \<lparr>nodes = 4, activation = ''Tanh''\<rparr>,
        \<lparr>nodes = 2, activation = ''Softmax''\<rparr>]
   \<and> layers (removeLayer \<lparr>layers = defaultLayers, sel = 1\<rparr> 3)
     = [\<lparr>nodes = 3, activation = ''Linear''\<rparr>, \<lparr>nodes = 5, activation = ''ReLU''\<rparr>,
        \<lparr>nodes = 4, activation = ''Tanh''\<rparr>]
   \<and> LayerCard_remove
      \<lparr>layers = [\<lparr>nodes = 3, activation = ''Linear''\<rparr>, \<lparr>nodes = 5, activation = ''ReLU''\<rparr>,
                 \<lparr>nodes = 2, activation = ''Softmax''\<rparr>], sel = 1\<rparr> 1
     = Some \<lparr>layers = [\<lparr>nodes = 3, activation = ''Linear''\<rparr>, \<lparr>nodes = 5, activation = ''ReLU''\<rparr>,
                 \<lparr>nodes = 2, activation = ''Softmax''\<rparr>], sel = 1\<rparr>"
  by (simp add: layers_removeLayer defaultLayers_def LayerCard_remove_def
      hiddenControls_rendered_iff removeButton_onClick_def isAtMinLayers_def)

text \<open>
  C2, amended. The remove button exists only on the cards of hidden layers
  (\<open>0 < index < L - 1\<close>); clicking it when \<open>L \<le> 3\<close> leaves the state unchanged and
  signals nothing; when \<open>L > 3\<close> it calls \<^verbatim>\<open>removeLayer(index)\<close>.
  \<^verbatim>\<open>removeLayer(idx)\<close> itself checks nothing: it drops exactly the layer at \<open>idx\<close>,
  keeps the layers before it in place and moves each later layer down by one.
\<close>

theorem C2_remove_guarded_by_card:
  "(LayerCard_remove st index = None \<longleftrightarrow> index = 0 \<or> length (layers st) \<le> index + 1)
   \<and> (0 < index \<and> index + 1 < length (layers st) \<and> length (layers st) \<le> 3 \<longrightarrow>
        LayerCard_remove st index = Some st)
   \<and> (0 < index \<and> index + 1 < length (layers st) \<and> 3 < length (layers st) \<longrightarrow>
        LayerCard_remove st index = Some (removeLayer st index))
   \<and> layers (removeLayer st idx) = take idx (layers st) @ drop (Suc idx) (layers st)
   \<and> (idx < length (layers st) \<longrightarrow>
        length (layers (removeLayer st idx)) = length (layers st) - 1)
   \<and> (\<forall>i. i < idx \<and> i < length (layers st) \<longrightarrow>
        layers (removeLayer st idx) ! i = layers st ! i)
   \<and> (\<forall>i. idx \<le> i \<and> Suc i < length (layers st) \<longrightarrow>
        layers (removeLayer st idx) ! i = layers st ! Suc i)"
proof -
  have none: "LayerCard_remove st index = None \<longleftrightarrow> index = 0 \<or> length (layers st) \<le> index + 1"
    by (auto simp: LayerCard_remove_def hiddenControls_rendered_iff)
  have noop: "0 < index \<and> index + 1 < length (layers st) \<and> length (layers st) \<le> 3 \<longrightarrow>
        LayerCard_remove st index = Some st"
    by (simp add: LayerCard_remove_def hiddenControls_rendered_iff removeButton_onClick_def
        isAtMinLayers_def)
  have rem: "0 < index \<and> index + 1 < length (layers st) \<and> 3 < length (layers st) \<longrightarrow>
        LayerCard_remove st index = Some (removeLayer st index)"
    by (simp add: LayerCard_remove_def hiddenControls_rendered_iff removeButton_onClick_def
        isAtMinLayers_def)
  have len: "idx < length (layers st) \<longrightarrow>
        length (layers (removeLayer st idx)) = length (layers st) - 1"
    by (auto simp: layers_removeLayer)
  have before: "\<forall>i. i < idx \<and> i < length (layers st) \<longrightarrow>
        layers (removeLayer st idx) ! i = layers st ! i"
    by (simp add: layers_removeLayer nth_append)
  have after: "\<forall>i. idx \<le> i \<and> Suc i < length (layers st) \<longrightarrow>
        layers (removeLayer st idx) ! i = layers st ! Suc i"
  proof (intro allI impI)
    fix i
    assume a: "idx \<le> i \<and> Suc i < length (layers st)"
    then have m: "min (length (layers st)) idx = idx" by simp
    from a have "Suc idx + (i - idx) = Suc i" by simp
    with a m show "layers (removeLayer st idx) ! i = layers st ! Suc i"
      by (simp add: layers_removeLayer nth_append)
  qed
  from none noop rem len before after show ?thesis
    by (simp only: layers_removeLayer simp_thms)
qed

theorem C2_remove_guarded_by_card_witness:
  "(0::nat) < 2 \<and> 2 + 1 < length (layers \<lparr>layers = defaultLayers, sel = 1\<rparr>)
   \<and> 3 < length (layers \<lparr>layers = defaultLayers, sel = 1\<rparr>)
   \<and> LayerCard_remove \<lparr>layers = defaultLayers, sel = 1\<rparr> 2
     = Some \<lparr>layers = [\<lparr>nodes = 3, activation = ''Linear''\<rparr>, \<lparr>nodes = 5, activation = ''ReLU''\<rparr>,
                       \<lparr>nodes = 2, activation = ''Softmax''\<rparr>], sel = 1\<rparr>
   \<and> LayerCard_remove \<lparr>layers = defaultLayers, sel = 1\<rparr> 0 = None
   \<and> LayerCard_remove \<lparr>layers = defaultLayers, sel = 1\<rparr> 3 = None
   \<and> LayerCard_remove
        \<lparr>layers = [\<lparr>nodes = 3, activation = ''Linear''\<rparr>, \<lparr>nodes = 5, activation = ''ReLU''\<rparr>,
                   \<lparr>nodes = 2, activation = ''Softmax''\<rparr>], sel = 1\<rparr> 1
     = Some \<lparr>layers = [\<lparr>nodes = 3, activation = ''Linear''\<rparr>, \<lparr>nodes = 5, activation = ''ReLU''\<rparr>,
                       \<lparr>nodes = 2, activation = ''Softmax''\<rparr>], sel = 1\<rparr>"
proof -
  let ?d = "\<lparr>layers = defaultLayers, sel = 1\<rparr>"
  let ?t = "\<lparr>layers = [\<lparr>nodes = 3, activation = ''Linear''\<rparr>, \<lparr>nodes = 5, activation = ''ReLU''\<rparr>,
                       \<lparr>nodes = 2, activation = ''Softmax''\<rparr>], sel = 1::int\<rparr>"
  have len: "length (layers ?d) = 4"
    by (simp add: defaultLayers_def)
  have r: "removeLayer ?d 2 = ?t"
    by (simp add: removeLayer_def array_filter_drop_index defaultLayers_def)
  have a: "LayerCard_remove ?d 2 = Some ?t"
    using C2_remove_guarded_by_card [of ?d 2 2] len r by simp
  have b: "LayerCard_remove ?d 0 = None"
    using C2_remove_guarded_by_card [of ?d 0 0] by simp
  have c: "LayerCard_remove ?d 3 = None"
    using C2_remove_guarded_by_card [of ?d 3 3] len by simp
  have d: "LayerCard_remove ?t 1 = Some ?t"
    using C2_remove_guarded_by_card [of ?t 1 1] by simp
  from len a b c d show ?thesis
    by simp
qed

section \<open>Changing an activation\<close>



section \<open>The composition string\<close>

lemma showNat_digit: "n < 10 \<Longrightarrow> showNat n = [digit_char n]"
  by (subst showNat.simps) simp

lemma showNat_1: "showNat 1 = ''1''"
  by (simp add: showNat_digit digit_char_def)

lemma showNat_Suc_0: "showNat (Suc 0) = ''1''"
  by (simp add: showNat_digit digit_char_def)

lemma showNat_2: "showNat 2 = ''2''"
  by (simp add: showNat_digit digit_char_def)

lemma showNat_3: "showNat 3 = ''3''"
  by (simp add: showNat_digit digit_char_def)

lemma compTex_loop_Suc: "compTex_loop lys (Suc k) inner = compTex_loop lys k (wrapper lys (Suc k) inner)"
  by (simp add: wrapper_def Let_def)

lemma compTex_loop_foldr: "compTex_loop lys k inner = foldr (wrapper lys) [1..<Suc k] inner"
proof (induction k arbitrary: inner)
  case 0
  then show ?case by simp
next
  case (Suc k)
  have "compTex_loop lys (Suc k) inner = foldr (wrapper lys) [1..<Suc k] (wrapper lys (Suc k) inner)"
    by (simp only: compTex_loop_Suc Suc.IH)
  also have "\<dots> = foldr (wrapper lys) ([1..<Suc k] @ [Suc k]) inner"
    by simp
  also have "[1..<Suc k] @ [Suc k] = [1..<Suc (Suc k)]"
    by simp
  finally show ?case .
qed

lemma compTex_foldr: "compTex lys = ''f(x) = '' @ foldr (wrapper lys) [1..<length lys] ''x''"
proof (cases lys)
  case Nil
  then show ?thesis by (simp add: compTex_def)
next
  case (Cons l rest)
  then have "Suc (length lys - 1) = length lys" by simp
  then show ?thesis
    unfolding compTex_def compTex_loop_foldr by (simp only:)
qed

text \<open>
  C7. The claim wants the output layer's softmax wrapper outermost and the first
  hidden layer's wrapper around the input symbol. The loop runs \<open>i\<close> from \<open>L - 1\<close> down
  to 1 and wraps at each step, so the wrapper of layer \<open>L - 1\<close> is applied first, to
  \<open>x\<close>, and the wrapper of layer 1 last: the string is
  \<open>wrapper 1 (wrapper 2 (\<dots> (wrapper (L - 1) x)))\<close>. There is one wrapper per
  transition and the innermost expression is \<open>x\<close>, but on the three-layer network
  with activations ReLU, Softmax the outer wrapper is the ReLU one and softmax is
  the inner one.
\<close>

theorem C7_compTex_nests_output_innermost:
  "compTex lys = ''f(x) = '' @ foldr (wrapper lys) [1..<length lys] ''x''
   \<and> compTex [\<lparr>nodes = 3, activation = ''Linear''\<rparr>, \<lparr>nodes = 5, activation = ''ReLU''\<rparr>,
              \<lparr>nodes = 2, activation = ''Softmax''\<rparr>]
     = ''f(x) = '' @ BS # ''sigma_{'' @ BS # ''scriptscriptstyle'' @ BS # ''text{ReLU}}''
        @ BS # ''!'' @ BS # ''bigl(W^{(1)}''
        @ BS # ''operatorname{softmax}'' @ BS # ''!'' @ BS # ''bigl(W^{(2)}x + b^{(2)}'' @ BS # ''bigr)''
        @ '' + b^{(1)}'' @ BS # ''bigr)''"
proof -
  have "compTex [\<lparr>nodes = 3, activation = ''Linear''\<rparr>, \<lparr>nodes = 5, activation = ''ReLU''\<rparr>,
              \<lparr>nodes = 2, activation = ''Softmax''\<rparr>]
     = ''f(x) = '' @ BS # ''sigma_{'' @ BS # ''scriptscriptstyle'' @ BS # ''text{ReLU}}''
        @ BS # ''!'' @ BS # ''bigl(W^{(1)}''
        @ BS # ''operatorname{softmax}'' @ BS # ''!'' @ BS # ''bigl(W^{(2)}x + b^{(2)}'' @ BS # ''bigr)''
        @ '' + b^{(1)}'' @ BS # ''bigr)''"
    by (simp add: compTex_def numeral_2_eq_2 Let_def showNat_Suc_0 showNat_2 showNat_digit digit_char_def)
  then show ?thesis
    by (simp only: compTex_foldr simp_thms)
qed

section \<open>The focal-loss gradient\<close>

lemma focal_gradFormula_render:
  "focal_gradFormula numStr p = focal_grad_lhs @ render numStr (focal_grad_rhs (gamma p))"
  by (simp add: focal_gradFormula_def focal_grad_lhs_def focal_grad_rhs_def modulating_def
      correction_def residual_def yhat_star_def yhat_i_def y_i_def delta_i_def)

lemma ce_gradFormula_render:
  "ce_gradFormula = ce_grad_lhs @ render numStr residual"
  by (simp add: ce_gradFormula_def ce_grad_lhs_def residual_def yhat_i_def y_i_def)

lemma eval_modulating_0: "eval env yhat_star \<noteq> 1 \<Longrightarrow> eval env (modulating 0) = 1"
  by (simp add: modulating_def)

lemma eval_correction_0: "eval env (correction 0) = 0"
  by (simp add: correction_def)

lemma eval_focal_0: "eval env yhat_star \<noteq> 1 \<Longrightarrow> eval env (focal_grad_rhs 0) = eval env residual"
  by (simp add: focal_grad_rhs_def eval_modulating_0 eval_correction_0)

text \<open>
  C8. For every \<open>gamma\<close> the focal-loss gradient string is the left-hand side followed
  by the printed form of a difference of two terms: the modulating factor
  \<open>(1 - y)^{gamma}\<close> times the residual, minus a correction term that carries the
  logarithm. Cross-Entropy's gradient string is its left-hand side followed by the
  printed residual. At \<open>gamma = 0\<close> the correction term has value 0, and for a predicted
  probability other than 1 the modulating factor has value 1, so the focal expression
  has the value of the residual.
\<close>

theorem C8_focal_gradient_two_terms:
  "focal_gradFormula numStr p = focal_grad_lhs @ render numStr (focal_grad_rhs (gamma p))
   \<and> focal_grad_rhs g = Diff (Juxt (modulating g) (Paren residual)) (correction g)
   \<and> ce_gradFormula = ce_grad_lhs @ render numStr residual
   \<and> eval env (correction 0) = 0
   \<and> (eval env yhat_star \<noteq> 1 \<longrightarrow>
        eval env (modulating 0) = 1
        \<and> eval env (focal_grad_rhs 0) = eval env residual)"
proof (intro conjI impI)
  show "focal_gradFormula numStr p = focal_grad_lhs @ render numStr (focal_grad_rhs (gamma p))"
    by (rule focal_gradFormula_render)
  show "focal_grad_rhs g = Diff (Juxt (modulating g) (Paren residual)) (correction g)"
    by (rule focal_grad_rhs_def)
  show "ce_gradFormula = ce_grad_lhs @ render numStr residual"
    by (rule ce_gradFormula_render)
  show "eval env (correction 0) = 0"
    by (rule eval_correction_0)
next
  assume "eval env yhat_star \<noteq> 1"
  then show "eval env (modulating 0) = 1"
    by (rule eval_modulating_0)
next
  assume "eval env yhat_star \<noteq> 1"
  then show "eval env (focal_grad_rhs 0) = eval env residual"
    by (rule eval_focal_0)
qed

theorem C8_focal_gradient_two_terms_witness:
  "eval (\<lambda>s. if s = ''y_i'' then 1 else 1 / 4) yhat_star \<noteq> 1
   \<and> eval (\<lambda>s. if s = ''y_i'' then 1 else 1 / 4) (modulating 0) = 1
   \<and> eval (\<lambda>s. if s = ''y_i'' then 1 else 1 / 4) (focal_grad_rhs 0) = - (3 / 4)
   \<and> eval (\<lambda>s. if s = ''y_i'' then 1 else 1 / 4) residual = - (3 / 4)
   \<and> focal_gradFormula (\<lambda>r. ''0'') \<lparr>gamma = 0, eps = 1 / 10\<rparr>
     = focal_grad_lhs @ ''(1-'' @ BS # ''hat{y}_{y^*})^{0}('' @ BS # ''hat{y}_i - y_i) - 0(1-''
         @ BS # ''hat{y}_{y^*})^{0}'' @ BS # ''log('' @ BS # ''hat{y}_{y^*})''
         @ BS # ''hat{y}_{y^*}('' @ BS # ''delta_{i,y^*} - '' @ BS # ''hat{y}_i)''"
proof -
  let ?env = "\<lambda>s. if s = ''y_i'' then 1 else 1 / (4::real)"
  have ne: "eval ?env yhat_star \<noteq> 1"
    by (simp add: yhat_star_def)
  have res: "eval ?env residual = - (3 / 4)"
    by (simp add: residual_def yhat_i_def y_i_def)
  note inst = C8_focal_gradient_two_terms [of "\<lambda>r. ''0''" "\<lparr>gamma = 0, eps = 1 / 10\<rparr>" 0 ?env]
  from inst ne have m: "eval ?env (modulating 0) = 1"
    by blast
  from inst ne have "eval ?env (focal_grad_rhs 0) = eval ?env residual"
    by blast
  with res have f: "eval ?env (focal_grad_rhs 0) = - (3 / 4)"
    by simp
  from inst have "focal_gradFormula (\<lambda>r. ''0'') \<lparr>gamma = 0, eps = 1 / 10\<rparr>
      = focal_grad_lhs @ render (\<lambda>r. ''0'') (focal_grad_rhs (gamma \<lparr>gamma = 0, eps = 1 / 10\<rparr>))"
    by blast
  then have s: "focal_gradFormula (\<lambda>r. ''0'') \<lparr>gamma = 0, eps = 1 / 10\<rparr>
     = focal_grad_lhs @ ''(1-'' @ BS # ''hat{y}_{y^*})^{0}('' @ BS # ''hat{y}_i - y_i) - 0(1-''
         @ BS # ''hat{y}_{y^*})^{0}'' @ BS # ''log('' @ BS # ''hat{y}_{y^*})''
         @ BS # ''hat{y}_{y^*}('' @ BS # ''delta_{i,y^*} - '' @ BS # ''hat{y}_i)''"
    by (simp add: focal_grad_rhs_def modulating_def correction_def residual_def
        yhat_star_def yhat_i_def y_i_def delta_i_def)
  from ne m f res s show ?thesis
    by (intro conjI)
qed

section \<open>The illustrative weight\<close>

lemma toFixed2_hundredths:
  "toFixed2 v * 100 = of_int (if v < 0 then - \<lfloor>(- v) * 100 + 1 / 2\<rfloor> else \<lfloor>v * 100 + 1 / 2\<rfloor>)"
  by (simp add: toFixed2_def)

lemma toFixed2_neg:
  "v < 0 \<Longrightarrow> toFixed2 v = - (of_int \<lfloor>(- v) * 100 + 1 / 2\<rfloor> / 100)"
  by (simp only: toFixed2_def if_True)

lemma toFixed2_nonneg:
  "\<not> v < 0 \<Longrightarrow> toFixed2 v = of_int \<lfloor>v * 100 + 1 / 2\<rfloor> / 100"
  by (simp only: toFixed2_def if_False)

lemma floor_bounds_100:
  fixes w :: real
  assumes "0 \<le> w" and "w < 101"
  shows "0 \<le> (of_int \<lfloor>w\<rfloor> :: real) \<and> (of_int \<lfloor>w\<rfloor> :: real) \<le> 100"
proof -
  from assms(1) have "0 \<le> \<lfloor>w\<rfloor>" by simp
  moreover from assms(2) have "\<lfloor>w\<rfloor> < 101" by (simp add: floor_less_iff)
  then have "\<lfloor>w\<rfloor> \<le> 100" by simp
  ultimately show ?thesis by simp
qed

lemma toFixed2_range:
  assumes "- 1 \<le> v" and "v \<le> 1"
  shows "- 1 \<le> toFixed2 v \<and> toFixed2 v \<le> 1"
proof (cases "v < 0")
  case True
  from True assms have "0 \<le> (- v) * 100 + 1 / 2" and "(- v) * 100 + 1 / 2 < 101"
    by linarith+
  from floor_bounds_100 [OF this] show ?thesis
    unfolding toFixed2_neg [OF True] by linarith
next
  case False
  from False assms have "0 \<le> v * 100 + 1 / 2" and "v * 100 + 1 / 2 < 101"
    by linarith+
  from floor_bounds_100 [OF this] show ?thesis
    unfolding toFixed2_nonneg [OF False] by linarith
qed

lemma toFixed2_nearest: "\<bar>toFixed2 v - v\<bar> \<le> 1 / 200"
proof (cases "v < 0")
  case True
  have "of_int \<lfloor>(- v) * 100 + 1 / 2\<rfloor> \<le> (- v) * 100 + 1 / 2"
    and "(- v) * 100 + 1 / 2 < of_int \<lfloor>(- v) * 100 + 1 / 2\<rfloor> + 1"
    by linarith+
  then show ?thesis
    unfolding toFixed2_neg [OF True] by linarith
next
  case False
  have "of_int \<lfloor>v * 100 + 1 / 2\<rfloor> \<le> v * 100 + 1 / 2"
    and "v * 100 + 1 / 2 < of_int \<lfloor>v * 100 + 1 / 2\<rfloor> + 1"
    by linarith+
  then show ?thesis
    unfolding toFixed2_nonneg [OF False] by linarith
qed

lemma seedVal_raw_range: "- 1 \<le> seedVal_raw s li r c \<and> seedVal_raw s li r c < 1"
proof -
  let ?x = "s (of_int (li * 7919 + r * 1013 + c * 431)) * (437585453 / 10000)"
  have "0 \<le> ?x - of_int \<lfloor>?x\<rfloor>" and "?x - of_int \<lfloor>?x\<rfloor> < 1"
    by linarith+
  then show ?thesis by (simp add: seedVal_raw_def Let_def)
qed

lemma seedVal_toFixed2: "seedVal s li r c = toFixed2 (seedVal_raw s li r c)"
  by (simp add: seedVal_def seedVal_raw_def Let_def)

text \<open>
  C9. Whatever the sine function is, \<^verbatim>\<open>seedVal(li, r, c)\<close> lies in \<open>[-1, 1]\<close>, is a
  whole number of hundredths, and differs from the unrounded value by at most 0.005.
  It has no state: besides its three arguments it depends only on the value of the
  sine at \<open>li * 7919 + r * 1013 + c * 431\<close>, so two calls with the same arguments
  return the same value.
\<close>

theorem C9_seedVal_range_two_decimals:
  "- 1 \<le> seedVal Math_sin li r c \<and> seedVal Math_sin li r c \<le> 1
   \<and> of_int \<lfloor>seedVal Math_sin li r c * 100\<rfloor> = seedVal Math_sin li r c * 100
   \<and> \<bar>seedVal Math_sin li r c - seedVal_raw Math_sin li r c\<bar> \<le> 1 / 200
   \<and> (Math_sin (of_int (li * 7919 + r * 1013 + c * 431))
        = Math_sin' (of_int (li * 7919 + r * 1013 + c * 431))
       \<longrightarrow> seedVal Math_sin li r c = seedVal Math_sin' li r c)"
proof (intro conjI impI)
  from seedVal_raw_range [of Math_sin li r c]
  have r: "- 1 \<le> seedVal_raw Math_sin li r c" "seedVal_raw Math_sin li r c \<le> 1"
    by simp_all
  from toFixed2_range [OF r] show "- 1 \<le> seedVal Math_sin li r c" and "seedVal Math_sin li r c \<le> 1"
    by (simp_all add: seedVal_toFixed2)
  show "of_int \<lfloor>seedVal Math_sin li r c * 100\<rfloor> = seedVal Math_sin li r c * 100"
    by (simp only: seedVal_toFixed2 toFixed2_hundredths floor_of_int)
  show "\<bar>seedVal Math_sin li r c - seedVal_raw Math_sin li r c\<bar> \<le> 1 / 200"
    by (simp only: seedVal_toFixed2 toFixed2_nearest)
next
  assume "Math_sin (of_int (li * 7919 + r * 1013 + c * 431))
        = Math_sin' (of_int (li * 7919 + r * 1013 + c * 431))"
  then show "seedVal Math_sin li r c = seedVal Math_sin' li r c"
    by (simp add: seedVal_def)
qed

theorem C9_seedVal_range_two_decimals_witness:
  "seedVal (\<lambda>a. 1 / 2) 1 2 3 = - (45 / 100)
   \<and> seedVal (\<lambda>a. if a = 11238 then 1 / 2 else 0) 1 2 3 = seedVal (\<lambda>a. 1 / 2) 1 2 3
   \<and> - 1 \<le> seedVal (\<lambda>a. 1 / 2) 1 2 3 \<and> seedVal (\<lambda>a. 1 / 2) 1 2 3 \<le> 1
   \<and> seedVal (\<lambda>a. 0) 1 2 3 = - 1"
proof -
  have v: "seedVal (\<lambda>a. 1 / 2) 1 2 3 = - (45 / 100)"
    by (simp add: seedVal_def toFixed2_def Let_def)
  have z: "seedVal (\<lambda>a. 0) 1 2 3 = - 1"
    by (simp add: seedVal_def toFixed2_def Let_def)
  have e: "seedVal (\<lambda>a. if a = 11238 then 1 / 2 else 0) 1 2 3 = seedVal (\<lambda>a. 1 / 2) 1 2 3"
    by (rule C9_seedVal_range_two_decimals [THEN conjunct2, THEN conjunct2, THEN conjunct2,
          THEN conjunct2, THEN mp]) simp
  from C9_seedVal_range_two_decimals [of "\<lambda>a. 1 / 2" 1 2 3]
  have rg: "- 1 \<le> seedVal (\<lambda>a. 1 / 2) 1 2 3 \<and> seedVal (\<lambda>a. 1 / 2) 1 2 3 \<le> 1"
    by blast
  from v e rg z show ?thesis
    by (intro conjI) simp_all
qed

end
